theory Spec2Isabelle
  imports Main "HOL-Library.Word" "HOL-Library.Signed_Division"
begin

unbundle bit_operations_syntax

section \<open>The UDOO wiring layer (src/wiring/udoo.c) as HOL functions\<close>

subsection \<open>C types\<close>

text \<open>
  \<open>uint8_t\<close> and \<open>uint32_t\<close> are words of that width. C's \<open>int\<close> (32 bits on the
  board) is a 32-bit word as well; \<open>sint\<close> reads it as a signed number where the sign
  matters. An enumeration is an \<open>int\<close>.
\<close>

type_synonym u8 = "8 word"
type_synonym u32 = "32 word"
type_synonym cint = "32 word"

subsection \<open>Calls to the collaborators\<close>

text \<open>
  The GPIO driver, the ADC driver, the diagnostic sink and the operating system's clock
  and sleep are not part of the file. Every call the file makes to one of them is
  recorded, in order, as an event. The ADC calls take the constant peripheral base
  \<open>ADC\<close> as first argument; it is left out of the events.
\<close>

datatype event =
    Debug string "u32 list"
  | GpioExport cint
  | GpioSetDirInput cint
  | GpioSetDirOutput cint
  | GpioSetValue cint cint
  | GpioGetValue cint
  | AdcEnableChannel u32
  | AdcStart
  | AdcGetStatus
  | AdcGetLatestValue
  | AdcDisableChannel u32
  | Usleep u32
  | ClockGettime

fun is_adc_call :: "event \<Rightarrow> bool" where
  "is_adc_call (AdcEnableChannel c) = True"
| "is_adc_call AdcStart = True"
| "is_adc_call AdcGetStatus = True"
| "is_adc_call AdcGetLatestValue = True"
| "is_adc_call (AdcDisableChannel c) = True"
| "is_adc_call e = False"

fun is_gpio_call :: "event \<Rightarrow> bool" where
  "is_gpio_call (GpioExport p) = True"
| "is_gpio_call (GpioSetDirInput p) = True"
| "is_gpio_call (GpioSetDirOutput p) = True"
| "is_gpio_call (GpioSetValue p v) = True"
| "is_gpio_call (GpioGetValue p) = True"
| "is_gpio_call e = False"

fun is_debug :: "event \<Rightarrow> bool" where
  "is_debug (Debug m a) = True"
| "is_debug e = False"

subsection \<open>Constants and tables of wiring.h and udooConfig.h\<close>

text \<open>
  Modelled from the spec: the enumeration of ADC lines is declared in udooConfig.h,
  which is not among the sources. The constructors \<open>ADC0\<close> ... \<open>ADC11\<close> are the case
  labels of the switch in \<open>analogRead\<close> (there is no label \<open>ADC6\<close>); as case labels of
  one C switch they are distinct values. \<open>OtherChannel\<close> stands for every other value
  of the enumeration.
\<close>

datatype eAnalogChannel =
    ADC0 | ADC1 | ADC2 | ADC3 | ADC4 | ADC5
  | ADC7 | ADC8 | ADC9 | ADC10 | ADC11
  | OtherChannel cint

text \<open>An entry of the table \<open>analogPin\<close>; the fields are the two the file reads.\<close>

record pin_description =
  ADCChannelNumber :: u32
  analogChannel :: eAnalogChannel

text \<open>
  The macros and the table the file takes from its headers. Their values are not in the
  sources, so they are parameters, each at the type the file uses it at: \<open>A0\<close>,
  \<open>CANTX\<close>, \<open>NOT_ANALOG_PIN_ERROR\<close>, \<open>ADC_RESOLUTION\<close> and
  \<open>ADC_ISR_DRDY\<close> after their conversion to \<open>uint32_t\<close>, the others as
  \<open>int\<close>. The table is indexed by pins between \<open>A0\<close> and \<open>CANTX\<close> only.
\<close>

record config =
  INPUT :: cint
  OUTPUT :: cint
  HIGH :: cint
  LOW :: cint
  LSBFIRST :: cint
  MSBFIRST :: cint
  AR_DEFAULT :: cint
  A0 :: u32
  CANTX :: u32
  NOT_ANALOG_PIN_ERROR :: u32
  ADC_RESOLUTION :: u32
  ADC_ISR_DRDY :: u32
  analogPin :: "u32 \<Rightarrow> pin_description"

subsection \<open>What the hardware answers\<close>

text \<open>
  Three driver calls return a value the file uses. The answer is a function of the calls
  made before it (and of the pin asked for), which covers every deterministic device.
\<close>

record env =
  gpioGetValue_answer :: "event list \<Rightarrow> cint \<Rightarrow> cint"
  adc_get_status_answer :: "event list \<Rightarrow> u32"
  adc_get_latest_value_answer :: "event list \<Rightarrow> u32"

text \<open>
  \<open>struct timespec\<close>, and the clock: \<open>clock_gettime\<close> answers with its return code
  and the time it stored. The width of \<open>long\<close> is left open (\<open>'l word\<close>).
  \<open>CLOCK_TIME_ERROR\<close> is the macro after its conversion to \<open>unsigned long\<close>.
\<close>

record 'w timespec =
  tv_sec :: 'w
  tv_nsec :: 'w

record 'w clock =
  CLOCK_TIME_ERROR :: 'w
  clock_gettime_answer :: "event list \<Rightarrow> cint \<times> 'w timespec"

subsection \<open>Program state\<close>

text \<open>
  The file's three global variables and the calls made so far. \<open>readResolution\<close> and
  \<open>writeResolution\<close> are the statics \<open>_readResolution\<close> and \<open>_writeResolution\<close>.
\<close>

record state =
  readResolution :: cint
  writeResolution :: cint
  analog_reference :: cint
  trace :: "event list"

definition initial_state :: "config \<Rightarrow> state" where
  "initial_state cfg =
     \<lparr>readResolution = 10, writeResolution = 8, analog_reference = AR_DEFAULT cfg, trace = []\<rparr>"

definition emit :: "event \<Rightarrow> state \<Rightarrow> state" where
  "emit e s = s\<lparr>trace := trace s @ [e]\<rparr>"

definition debug :: "string \<Rightarrow> u32 list \<Rightarrow> state \<Rightarrow> state" where
  "debug msg args s = emit (Debug msg args) s"

definition gpioExport :: "cint \<Rightarrow> state \<Rightarrow> state" where
  "gpioExport pin s = emit (GpioExport pin) s"

definition gpioSetDirInput :: "cint \<Rightarrow> state \<Rightarrow> state" where
  "gpioSetDirInput pin s = emit (GpioSetDirInput pin) s"

definition gpioSetDirOutput :: "cint \<Rightarrow> state \<Rightarrow> state" where
  "gpioSetDirOutput pin s = emit (GpioSetDirOutput pin) s"

definition gpioSetValue :: "cint \<Rightarrow> cint \<Rightarrow> state \<Rightarrow> state" where
  "gpioSetValue pin v s = emit (GpioSetValue pin v) s"

definition gpioGetValue :: "env \<Rightarrow> cint \<Rightarrow> state \<Rightarrow> cint \<times> state" where
  "gpioGetValue env pin s = (gpioGetValue_answer env (trace s) pin, emit (GpioGetValue pin) s)"

definition adc_enable_channel :: "u32 \<Rightarrow> state \<Rightarrow> state" where
  "adc_enable_channel ch s = emit (AdcEnableChannel ch) s"

definition adc_start :: "state \<Rightarrow> state" where
  "adc_start s = emit AdcStart s"

definition adc_get_status :: "env \<Rightarrow> state \<Rightarrow> u32 \<times> state" where
  "adc_get_status env s = (adc_get_status_answer env (trace s), emit AdcGetStatus s)"

definition adc_get_latest_value :: "env \<Rightarrow> state \<Rightarrow> u32 \<times> state" where
  "adc_get_latest_value env s = (adc_get_latest_value_answer env (trace s), emit AdcGetLatestValue s)"

definition adc_disable_channel :: "u32 \<Rightarrow> state \<Rightarrow> state" where
  "adc_disable_channel ch s = emit (AdcDisableChannel ch) s"

definition usleep :: "u32 \<Rightarrow> state \<Rightarrow> state" where
  "usleep usec s = emit (Usleep usec) s"

definition clock_gettime :: "'w clock \<Rightarrow> state \<Rightarrow> (cint \<times> 'w timespec) \<times> state" where
  "clock_gettime clk s = (clock_gettime_answer clk (trace s), emit ClockGettime s)"

subsection \<open>2. Digital I/O\<close>

definition pinMode :: "config \<Rightarrow> cint \<Rightarrow> cint \<Rightarrow> state \<Rightarrow> state" where
  "pinMode cfg pin mode s =
     (if mode \<noteq> INPUT cfg \<and> mode \<noteq> OUTPUT cfg
      then debug ''Mode can be either INPUT or OUTPUT'' [] s
      else let s1 = gpioExport pin s
           in if mode = INPUT cfg then gpioSetDirInput pin s1 else gpioSetDirOutput pin s1)"

definition digitalWrite :: "cint \<Rightarrow> cint \<Rightarrow> state \<Rightarrow> state" where
  "digitalWrite pin v s = gpioSetValue pin v s"

definition digitalRead :: "env \<Rightarrow> cint \<Rightarrow> state \<Rightarrow> cint \<times> state" where
  "digitalRead env pin s = gpioGetValue env pin s"

subsection \<open>3. Analog I/O\<close>

text \<open>
  C leaves \<open>>>\<close> and \<open><<\<close> on a \<open>uint32_t\<close> undefined when the count is 32 or more
  (what the processor then does differs between targets), so the two shifts have no
  result there. Below 32, \<open>>>\<close> drops the low bits and \<open><<\<close> drops the bits pushed
  beyond bit 31.
\<close>

definition shift_right_u32 :: "u32 \<Rightarrow> u32 \<Rightarrow> u32 option" where
  "shift_right_u32 v n = (if unat n < 32 then Some (drop_bit (unat n) v) else None)"

definition shift_left_u32 :: "u32 \<Rightarrow> u32 \<Rightarrow> u32 option" where
  "shift_left_u32 v n = (if unat n < 32 then Some (push_bit (unat n) v) else None)"

definition mapResolution :: "u32 \<Rightarrow> u32 \<Rightarrow> u32 \<Rightarrow> u32 option" where
  "mapResolution v from to =
     (if from = to then Some v
      else if from > to then shift_right_u32 v (from - to)
      else shift_left_u32 v (to - from))"

definition analogReference :: "cint \<Rightarrow> state \<Rightarrow> state" where
  "analogReference arefMode s = s\<lparr>analog_reference := arefMode\<rparr>"

text \<open>
  The empty \<open>while\<close> loop of \<open>analogRead\<close>: it asks for the status until the answer has
  every bit of \<open>ADC_ISR_DRDY\<close> set. It has no bound, so it is a partial function:
  \<open>None\<close> is the loop that never ends.
\<close>

partial_function (option) analogRead_wait :: "config \<Rightarrow> env \<Rightarrow> state \<Rightarrow> state option" where
  "analogRead_wait cfg env s =
     (case adc_get_status env s of
        (status, s') \<Rightarrow>
          if status AND ADC_ISR_DRDY cfg \<noteq> ADC_ISR_DRDY cfg
          then analogRead_wait cfg env s'
          else Some s')"

declare analogRead_wait.simps [code]

datatype fault = UndefinedShift

text \<open>The body of the case labels \<open>ADC0\<close> ... \<open>ADC11\<close>.\<close>

definition analogRead_convert ::
  "config \<Rightarrow> env \<Rightarrow> u32 \<Rightarrow> state \<Rightarrow> (fault + u32 \<times> state) option" where
  "analogRead_convert cfg env myPinChannel s =
     (let s1 = adc_enable_channel myPinChannel s;
          s2 = adc_start s1
      in case analogRead_wait cfg env s2 of
           None \<Rightarrow> None
         | Some s3 \<Rightarrow>
             (case adc_get_latest_value env s3 of
                (myPinValue, s4) \<Rightarrow>
                  (case mapResolution myPinValue (ADC_RESOLUTION cfg) (readResolution s4) of
                     None \<Rightarrow> Some (Inl UndefinedShift)
                   | Some myPinValue' \<Rightarrow>
                       Some (Inr (myPinValue', adc_disable_channel myPinChannel s4)))))"

text \<open>
  \<open>analogRead\<close> returns \<open>None\<close> when it never returns, \<open>Some (Inl UndefinedShift)\<close>
  when the resolution mapping has no defined result, and otherwise
  \<open>Some (Inr (value, state))\<close>.
\<close>

definition analogRead :: "config \<Rightarrow> env \<Rightarrow> u32 \<Rightarrow> state \<Rightarrow> (fault + u32 \<times> state) option" where
  "analogRead cfg env myPin s =
     (if myPin < A0 cfg \<or> myPin > CANTX cfg
      then Some (Inr (NOT_ANALOG_PIN_ERROR cfg, debug ''%d is not an Analog Pin'' [myPin] s))
      else
        let myPinChannel = ADCChannelNumber (analogPin cfg myPin);
            convert = analogRead_convert cfg env myPinChannel s
        in case analogChannel (analogPin cfg myPin) of
             ADC0 \<Rightarrow> convert
           | ADC1 \<Rightarrow> convert
           | ADC2 \<Rightarrow> convert
           | ADC3 \<Rightarrow> convert
           | ADC4 \<Rightarrow> convert
           | ADC5 \<Rightarrow> convert
           | ADC7 \<Rightarrow> convert
           | ADC8 \<Rightarrow> convert
           | ADC9 \<Rightarrow> convert
           | ADC10 \<Rightarrow> convert
           | ADC11 \<Rightarrow> convert
           | _ \<Rightarrow> Some (Inr (0, s)))"

text \<open>The case labels of the switch: the channels that are converted.\<close>

definition converted_channels :: "eAnalogChannel set" where
  "converted_channels = {ADC0, ADC1, ADC2, ADC3, ADC4, ADC5, ADC7, ADC8, ADC9, ADC10, ADC11}"

subsection \<open>4. Advanced I/O\<close>

text \<open>
  The two \<open>for\<close> loops, from the counter \<open>i\<close> on. The \<open>uint8_t\<close> operands are promoted
  to \<open>int\<close> (\<open>ucast\<close>) before \<open>|\<close>, \<open>&\<close>, \<open><<\<close> and \<open>-\<close>; the assignment to
  \<open>value\<close> cuts the result back to 8 bits. \<open><<\<close> on the \<open>int\<close> that was read acts on
  its 32-bit representation, as the compiler of the board (gcc) defines it also for a
  negative operand; the counts, 0 to 7, are below the width.
\<close>

function shiftIn_loop ::
  "config \<Rightarrow> env \<Rightarrow> u8 \<Rightarrow> u8 \<Rightarrow> u8 \<Rightarrow> u8 \<Rightarrow> u8 \<Rightarrow> state \<Rightarrow> u8 \<times> state" where
  "shiftIn_loop cfg env dataPin clockPin bitOrder i v s =
     (if i < 8 then
        let s1 = digitalWrite (ucast clockPin) (HIGH cfg) s;
            (r, s2) = digitalRead env (ucast dataPin) s1;
            v' = (if ucast bitOrder = LSBFIRST cfg
                  then ucast ((ucast v :: cint) OR push_bit (unat i) r)
                  else ucast ((ucast v :: cint) OR push_bit (unat (7 - ucast i :: cint)) r));
            s3 = digitalWrite (ucast clockPin) (LOW cfg) s2
        in shiftIn_loop cfg env dataPin clockPin bitOrder (i + 1) v' s3
      else (v, s))"
  by pat_completeness auto
termination
  by (relation "measure (\<lambda>(cfg, env, dataPin, clockPin, bitOrder, i, v, s). 8 - unat i)")
     (auto simp: unat_word_ariths word_less_nat_alt)

declare shiftIn_loop.simps [simp del]

definition shiftIn :: "config \<Rightarrow> env \<Rightarrow> u8 \<Rightarrow> u8 \<Rightarrow> u8 \<Rightarrow> state \<Rightarrow> u8 \<times> state" where
  "shiftIn cfg env dataPin clockPin bitOrder s =
     shiftIn_loop cfg env dataPin clockPin bitOrder 0 0 s"

function shiftOut_loop ::
  "config \<Rightarrow> u8 \<Rightarrow> u8 \<Rightarrow> u8 \<Rightarrow> u8 \<Rightarrow> u8 \<Rightarrow> state \<Rightarrow> state" where
  "shiftOut_loop cfg dataPin clockPin bitOrder val i s =
     (if i < 8 then
        let s1 = (if ucast bitOrder = LSBFIRST cfg
                  then digitalWrite (ucast dataPin)
                         (if (ucast val :: cint) AND push_bit (unat i) 1 \<noteq> 0 then 1 else 0) s
                  else digitalWrite (ucast dataPin)
                         (if (ucast val :: cint) AND push_bit (unat (7 - ucast i :: cint)) 1 \<noteq> 0
                          then 1 else 0) s);
            s2 = digitalWrite (ucast clockPin) (HIGH cfg) s1;
            s3 = digitalWrite (ucast clockPin) (LOW cfg) s2
        in shiftOut_loop cfg dataPin clockPin bitOrder val (i + 1) s3
      else s)"
  by pat_completeness auto
termination
  by (relation "measure (\<lambda>(cfg, dataPin, clockPin, bitOrder, val, i, s). 8 - unat i)")
     (auto simp: unat_word_ariths word_less_nat_alt)

declare shiftOut_loop.simps [simp del]

definition shiftOut :: "config \<Rightarrow> u8 \<Rightarrow> u8 \<Rightarrow> u8 \<Rightarrow> u8 \<Rightarrow> state \<Rightarrow> state" where
  "shiftOut cfg dataPin clockPin bitOrder val s =
     shiftOut_loop cfg dataPin clockPin bitOrder val 0 s"

subsection \<open>5. Time\<close>

definition delay :: "u32 \<Rightarrow> state \<Rightarrow> state" where
  "delay ms s = usleep (ms * 1000) s"

definition delayMicroseconds :: "u32 \<Rightarrow> state \<Rightarrow> state" where
  "delayMicroseconds mcs s = usleep mcs s"

text \<open>
  \<open>tm.tv_sec * 1000000L + tm.tv_nsec / 1000L\<close> is computed in \<open>long\<close>: the division
  truncates towards zero (\<open>sdiv\<close>), and a product or sum beyond the range of \<open>long\<close>
  is taken to wrap around, the file's own comment being that the number goes back to zero
  after some time. The cast to \<open>unsigned long\<close> keeps the bits.
\<close>

definition micros :: "('l::len) word clock \<Rightarrow> state \<Rightarrow> 'l word \<times> state" where
  "micros clk s =
     (case clock_gettime clk s of
        ((ret, tm), s1) \<Rightarrow>
          if ret = - 1
          then (CLOCK_TIME_ERROR clk, debug ''Clock Time error'' [] s1)
          else (tv_sec tm * 1000000 + word_of_int (sint (tv_nsec tm) sdiv 1000), s1))"

definition milis :: "('l::len) word clock \<Rightarrow> state \<Rightarrow> 'l word \<times> state" where
  "milis clk s = (case micros clk s of (us, s1) \<Rightarrow> (us div 1000, s1))"

subsection \<open>Notions the statements use\<close>

text \<open>
  The driver reports data ready, after the calls \<open>tr\<close>, when its status has every
  bit of \<open>ADC_ISR_DRDY\<close> set: the exit condition of the loop in \<open>analogRead\<close>.
\<close>

definition data_ready :: "config \<Rightarrow> env \<Rightarrow> event list \<Rightarrow> bool" where
  "data_ready cfg env tr \<longleftrightarrow>
     adc_get_status_answer env tr AND ADC_ISR_DRDY cfg = ADC_ISR_DRDY cfg"

definition polls :: "nat \<Rightarrow> event list" where
  "polls k = replicate k AdcGetStatus"

text \<open>The calls of one conversion on channel \<open>ch\<close> that polls \<open>k + 1\<close> times.\<close>

definition conversion_calls :: "u32 \<Rightarrow> nat \<Rightarrow> event list" where
  "conversion_calls ch k =
     [AdcEnableChannel ch, AdcStart] @ polls (Suc k) @ [AdcGetLatestValue, AdcDisableChannel ch]"

text \<open>What a run shows to its caller: the value returned and the calls made.\<close>

definition observable :: "(fault + u32 \<times> state) option \<Rightarrow> (fault + u32 \<times> event list) option" where
  "observable r = map_option (map_sum id (\<lambda>(v, s). (v, trace s))) r"

text \<open>
  A configuration with the values usual on Arduino boards, and a device whose converter is
  ready at the third poll and converts to 4095, for running the model at concrete inputs.
  Pin 54 is on line \<open>ADC7\<close>, every other pin on a line that is not converted.
\<close>

definition example_config :: config where
  "example_config =
     \<lparr>INPUT = 0, OUTPUT = 1, HIGH = 1, LOW = 0, LSBFIRST = 0, MSBFIRST = 1, AR_DEFAULT = 0,
      A0 = 54, CANTX = 68, NOT_ANALOG_PIN_ERROR = - 1, ADC_RESOLUTION = 12,
      ADC_ISR_DRDY = 16777216,
      analogPin = (\<lambda>p. if p = 54 then \<lparr>ADCChannelNumber = 7, analogChannel = ADC7\<rparr>
                        else \<lparr>ADCChannelNumber = 0, analogChannel = OtherChannel 6\<rparr>)\<rparr>"

definition example_env :: env where
  "example_env =
     \<lparr>gpioGetValue_answer = (\<lambda>tr pin. 0),
      adc_get_status_answer =
        (\<lambda>tr. if 2 \<le> length (filter (\<lambda>e. e = AdcGetStatus) tr) then 16777216 + 1 else 1),
      adc_get_latest_value_answer = (\<lambda>tr. 4095)\<rparr>"

text \<open>
  The shift protocol. At step \<open>i\<close> of the eight the bit at \<open>bit_position\<close> is
  moved: bit \<open>i\<close> when the least significant bit goes first, bit \<open>7 - i\<close> otherwise.
\<close>

definition bit_position :: "bool \<Rightarrow> nat \<Rightarrow> nat" where
  "bit_position lsb_first i = (if lsb_first then i else 7 - i)"

text \<open>The three calls of step \<open>i\<close> of \<open>shiftOut\<close>, and the calls of all eight steps.\<close>

definition shiftOut_step :: "config \<Rightarrow> u8 \<Rightarrow> u8 \<Rightarrow> bool \<Rightarrow> u8 \<Rightarrow> nat \<Rightarrow> event list" where
  "shiftOut_step cfg dataPin clockPin lsb_first val i =
     [GpioSetValue (ucast dataPin) (of_bool (bit val (bit_position lsb_first i))),
      GpioSetValue (ucast clockPin) (HIGH cfg),
      GpioSetValue (ucast clockPin) (LOW cfg)]"

definition shiftOut_calls :: "config \<Rightarrow> u8 \<Rightarrow> u8 \<Rightarrow> bool \<Rightarrow> u8 \<Rightarrow> event list" where
  "shiftOut_calls cfg dataPin clockPin lsb_first val =
     concat (map (shiftOut_step cfg dataPin clockPin lsb_first val) [0..<8])"

text \<open>The three calls of one step of \<open>shiftIn\<close>, and the calls of all eight steps.\<close>

definition shiftIn_pulse :: "config \<Rightarrow> u8 \<Rightarrow> u8 \<Rightarrow> event list" where
  "shiftIn_pulse cfg dataPin clockPin =
     [GpioSetValue (ucast clockPin) (HIGH cfg), GpioGetValue (ucast dataPin),
      GpioSetValue (ucast clockPin) (LOW cfg)]"

definition shiftIn_calls :: "config \<Rightarrow> u8 \<Rightarrow> u8 \<Rightarrow> event list" where
  "shiftIn_calls cfg dataPin clockPin = concat (replicate 8 (shiftIn_pulse cfg dataPin clockPin))"

text \<open>
  The level the driver answers at step \<open>k\<close> of a \<open>shiftIn\<close> that started after the
  calls \<open>tr\<close>, and the byte \<open>shiftIn\<close> puts together from the levels \<open>r\<close> of the
  steps \<open>n\<close> to 7, starting from \<open>v\<close>.
\<close>

definition sample :: "config \<Rightarrow> env \<Rightarrow> u8 \<Rightarrow> u8 \<Rightarrow> event list \<Rightarrow> nat \<Rightarrow> cint" where
  "sample cfg env dataPin clockPin tr k =
     gpioGetValue_answer env
       (tr @ concat (replicate k (shiftIn_pulse cfg dataPin clockPin)) @
        [GpioSetValue (ucast clockPin) (HIGH cfg)])
       (ucast dataPin)"

definition assemble :: "bool \<Rightarrow> (nat \<Rightarrow> cint) \<Rightarrow> nat \<Rightarrow> u8 \<Rightarrow> u8" where
  "assemble lsb_first r n v =
     fold (\<lambda>i v. ucast ((ucast v :: cint) OR push_bit (bit_position lsb_first i) (r i))) [n..<8] v"

text \<open>
  A looped-back data line: the levels written to the data pin are kept in order, and the
  \<open>k\<close>-th read of the data pin answers the \<open>k\<close>-th level written. When every level
  written has been read, the device answers as \<open>env\<close> does.
\<close>

definition data_written :: "cint \<Rightarrow> event list \<Rightarrow> cint list" where
  "data_written pin tr =
     concat (map (\<lambda>e. case e of GpioSetValue p v \<Rightarrow> if p = pin then [v] else [] | _ \<Rightarrow> []) tr)"

definition samples_taken :: "cint \<Rightarrow> event list \<Rightarrow> nat" where
  "samples_taken pin tr = length (filter (\<lambda>e. e = GpioGetValue pin) tr)"

definition loopback :: "cint \<Rightarrow> env \<Rightarrow> env" where
  "loopback dataPin env =
     env\<lparr>gpioGetValue_answer :=
       (\<lambda>tr pin. let w = data_written dataPin tr; k = samples_taken dataPin tr
                 in if pin = dataPin \<and> k < length w then w ! k
                    else gpioGetValue_answer env tr pin)\<rparr>"

text \<open>A 64-bit clock that reads 5 s and 123456789 ns.\<close>

definition example_clock :: "64 word clock" where
  "example_clock =
     \<lparr>CLOCK_TIME_ERROR = - 1,
      clock_gettime_answer = (\<lambda>tr. (0, \<lparr>tv_sec = 5, tv_nsec = 123456789\<rparr>))\<rparr>"

section \<open>Properties\<close>

subsection \<open>Resolution Mapper\<close>

lemma unat_shift_right: "unat (drop_bit n (v::u32)) = unat v div 2 ^ n"
  unfolding unat_drop_bit_eq by (simp add: drop_bit_eq_div)

lemma unat_shift_left: "unat (push_bit n (v::u32)) = (unat v * 2 ^ n) mod 2 ^ 32"
proof -
  have "unat (push_bit n v) = take_bit 32 (push_bit n (unat v))"
    by (simp add: unsigned_push_bit_eq)
  then show ?thesis
    by (simp add: take_bit_eq_mod push_bit_eq_mult)
qed

lemma unat_sub_less: "t < f \<Longrightarrow> unat (f - t) = unat f - unat (t::u32)"
  by (simp add: unat_sub word_le_nat_alt word_less_nat_alt)

text \<open>The mapping has no defined result exactly when the two widths are 32 or more apart.\<close>

lemma mapResolution_None_iff:
  "mapResolution v f t = None \<longleftrightarrow>
     (t < f \<and> 32 \<le> unat f - unat t) \<or> (f < t \<and> 32 \<le> unat t - unat f)"
  by (auto simp: mapResolution_def shift_right_u32_def shift_left_u32_def unat_sub_less not_less)

text \<open>
  C1, as the code has it: with equal widths \<open>mapResolution\<close> returns the value; from a
  wider to a narrower resolution less than 32 bits apart it returns the value shifted
  right by the difference; from a narrower to a wider one less than 32 bits apart it
  returns the value shifted left by the difference, within 32 bits.
\<close>

theorem mapResolution_shifts:
  "(f = t \<longrightarrow> mapResolution v f t = Some v) \<and>
   (t < f \<and> unat f - unat t < 32 \<longrightarrow>
      mapResolution v f t = Some (drop_bit (unat f - unat t) v)) \<and>
   (f < t \<and> unat t - unat f < 32 \<longrightarrow>
      mapResolution v f t = Some (push_bit (unat t - unat f) v))"
  by (auto simp: mapResolution_def shift_right_u32_def shift_left_u32_def unat_sub_less)

theorem mapResolution_shifts_witness:
  "mapResolution 4095 12 12 = Some 4095 \<and> mapResolution 4095 12 10 = Some 1023 \<and>
   mapResolution 255 8 12 = Some 4080"
  using mapResolution_shifts [of 12 12 4095] mapResolution_shifts [of 12 10 4095]
    mapResolution_shifts [of 8 12 255]
  by simp

text \<open>
  C1 as stated, for every pair of widths, fails: from 33 bits to 0 bits the shift count
  is 33, and the function has no defined result.
\<close>

theorem mapResolution_total_counterexample:
  "mapResolution 256 33 0 = None \<and> mapResolution 256 33 0 \<noteq> Some (drop_bit 33 256)"
  by (simp add: mapResolution_def shift_right_u32_def)

subsection \<open>Digital Pin Controller\<close>

text \<open>
  C6: a mode that is neither \<open>INPUT\<close> nor \<open>OUTPUT\<close> is reported to the diagnostic
  sink and nothing else happens: no GPIO call, no change of the globals. For \<open>INPUT\<close>
  the pin is exported and then set to input; for \<open>OUTPUT\<close> (a value other than
  \<open>INPUT\<close>) it is exported and then set to output.
\<close>

theorem pinMode_rejects_or_configures:
  "(mode \<noteq> INPUT cfg \<and> mode \<noteq> OUTPUT cfg \<longrightarrow>
      pinMode cfg pin mode s =
        s\<lparr>trace := trace s @ [Debug ''Mode can be either INPUT or OUTPUT'' []]\<rparr> \<and>
      filter is_gpio_call (trace (pinMode cfg pin mode s)) = filter is_gpio_call (trace s)) \<and>
   (mode = INPUT cfg \<longrightarrow>
      pinMode cfg pin mode s = s\<lparr>trace := trace s @ [GpioExport pin, GpioSetDirInput pin]\<rparr>) \<and>
   (mode = OUTPUT cfg \<and> INPUT cfg \<noteq> OUTPUT cfg \<longrightarrow>
      pinMode cfg pin mode s = s\<lparr>trace := trace s @ [GpioExport pin, GpioSetDirOutput pin]\<rparr>)"
  by (auto simp: pinMode_def debug_def gpioExport_def gpioSetDirInput_def gpioSetDirOutput_def
      emit_def Let_def)

theorem pinMode_rejects_or_configures_witness:
  "pinMode example_config 13 2 (initial_state example_config) =
     (initial_state example_config)\<lparr>trace := [Debug ''Mode can be either INPUT or OUTPUT'' []]\<rparr> \<and>
   pinMode example_config 13 0 (initial_state example_config) =
     (initial_state example_config)\<lparr>trace := [GpioExport 13, GpioSetDirInput 13]\<rparr> \<and>
   pinMode example_config 13 1 (initial_state example_config) =
     (initial_state example_config)\<lparr>trace := [GpioExport 13, GpioSetDirOutput 13]\<rparr>"
  using pinMode_rejects_or_configures [of 2 example_config 13 "initial_state example_config"]
    pinMode_rejects_or_configures [of 0 example_config 13 "initial_state example_config"]
    pinMode_rejects_or_configures [of 1 example_config 13 "initial_state example_config"]
  by (simp add: example_config_def initial_state_def)

subsection \<open>Analog Pin Reader\<close>

text \<open>
  The polling loop returns exactly when some poll is answered with data ready: it then
  has made \<open>k + 1\<close> polls, \<open>k\<close> being the first poll with that answer.
\<close>

lemma analogRead_wait_returns:
  "data_ready cfg env (trace s @ polls k) \<Longrightarrow>
   (\<forall>j<k. \<not> data_ready cfg env (trace s @ polls j)) \<Longrightarrow>
   analogRead_wait cfg env s = Some (s\<lparr>trace := trace s @ polls (Suc k)\<rparr>)"
proof (induction k arbitrary: s)
  case 0
  then show ?case
    by (subst analogRead_wait.simps) (simp add: adc_get_status_def emit_def data_ready_def polls_def)
next
  case (Suc k)
  let ?s' = "emit AdcGetStatus s"
  have nr: "\<not> data_ready cfg env (trace s)"
    using Suc.prems(2) [rule_format, of 0] by (simp add: polls_def)
  have "data_ready cfg env (trace ?s' @ polls k)"
    using Suc.prems(1) by (simp add: emit_def polls_def)
  moreover have "\<forall>j<k. \<not> data_ready cfg env (trace ?s' @ polls j)"
  proof (intro allI impI)
    fix j assume "j < k"
    then have "\<not> data_ready cfg env (trace s @ polls (Suc j))"
      using Suc.prems(2) by simp
    then show "\<not> data_ready cfg env (trace ?s' @ polls j)"
      by (simp add: emit_def polls_def)
  qed
  ultimately have "analogRead_wait cfg env ?s' = Some (?s'\<lparr>trace := trace ?s' @ polls (Suc k)\<rparr>)"
    by (rule Suc.IH)
  with nr show ?case
    by (subst analogRead_wait.simps) (simp add: adc_get_status_def emit_def data_ready_def polls_def)
qed

text \<open>Conversely a loop that returns has met a first poll answered with data ready.\<close>

lemma analogRead_wait_Some:
  "analogRead_wait cfg env s = Some s' \<Longrightarrow>
   \<exists>k. data_ready cfg env (trace s @ polls k) \<and>
       (\<forall>j<k. \<not> data_ready cfg env (trace s @ polls j)) \<and>
       s' = s\<lparr>trace := trace s @ polls (Suc k)\<rparr>"
proof (induction rule: analogRead_wait.raw_induct [rotated 1, consumes 1])
  case (1 wait cfg env s s')
  show ?case
  proof (cases "data_ready cfg env (trace s)")
    case True
    with 1(2) have "s' = emit AdcGetStatus s"
      by (simp add: adc_get_status_def data_ready_def)
    with True have "data_ready cfg env (trace s @ polls 0) \<and>
        (\<forall>j<0. \<not> data_ready cfg env (trace s @ polls j)) \<and>
        s' = s\<lparr>trace := trace s @ polls (Suc 0)\<rparr>"
      by (simp add: polls_def emit_def)
    then show ?thesis by blast
  next
    case False
    with 1(2) have "wait cfg env (emit AdcGetStatus s) = Some s'"
      by (simp add: adc_get_status_def data_ready_def)
    from 1(1) [OF this] obtain k where
      k: "data_ready cfg env (trace (emit AdcGetStatus s) @ polls k)"
         "\<forall>j<k. \<not> data_ready cfg env (trace (emit AdcGetStatus s) @ polls j)"
         "s' = (emit AdcGetStatus s)\<lparr>trace := trace (emit AdcGetStatus s) @ polls (Suc k)\<rparr>"
      by blast
    have "\<forall>j<Suc k. \<not> data_ready cfg env (trace s @ polls j)"
    proof (intro allI impI)
      fix j assume j: "j < Suc k"
      show "\<not> data_ready cfg env (trace s @ polls j)"
      proof (cases j)
        case 0
        with False show ?thesis by (simp add: polls_def)
      next
        case (Suc i)
        with j k(2) show ?thesis by (simp add: emit_def polls_def)
      qed
    qed
    moreover have "data_ready cfg env (trace s @ polls (Suc k))"
      using k(1) by (simp add: emit_def polls_def)
    moreover have "s' = s\<lparr>trace := trace s @ polls (Suc (Suc k))\<rparr>"
      using k(3) by (simp add: emit_def polls_def)
    ultimately show ?thesis by blast
  qed
qed

text \<open>If no poll is ever answered with data ready, the loop has no result.\<close>

lemma analogRead_wait_never:
  "(\<forall>k. \<not> data_ready cfg env (trace s @ polls k)) \<Longrightarrow> analogRead_wait cfg env s = None"
  using analogRead_wait_Some [of cfg env s] by (cases "analogRead_wait cfg env s") auto

lemma analogRead_wait_cases:
  obtains (returns) k where "data_ready cfg env (trace s @ polls k)"
      and "\<forall>j<k. \<not> data_ready cfg env (trace s @ polls j)"
  | (never) "\<forall>k. \<not> data_ready cfg env (trace s @ polls k)"
proof (cases "\<exists>k. data_ready cfg env (trace s @ polls k)")
  case True
  define k where "k = (LEAST k. data_ready cfg env (trace s @ polls k))"
  from True have "data_ready cfg env (trace s @ polls k)"
    unfolding k_def by (metis LeastI)
  moreover have "\<forall>j<k. \<not> data_ready cfg env (trace s @ polls j)"
    unfolding k_def using not_less_Least by blast
  ultimately show thesis by (rule returns)
next
  case False
  then show thesis by (intro never) simp
qed

text \<open>Inside the bounds, both included, the switch decides.\<close>

lemma analogRead_in_range:
  "A0 cfg \<le> myPin \<Longrightarrow> myPin \<le> CANTX cfg \<Longrightarrow>
   analogRead cfg env myPin s =
     (if analogChannel (analogPin cfg myPin) \<in> converted_channels
      then analogRead_convert cfg env (ADCChannelNumber (analogPin cfg myPin)) s
      else Some (Inr (0, s)))"
  by (cases "analogChannel (analogPin cfg myPin)")
     (simp_all add: analogRead_def converted_channels_def not_less [symmetric])

lemma analogRead_convert_returns:
  assumes "data_ready cfg env (trace s @ [AdcEnableChannel ch, AdcStart] @ polls k)"
    and "\<forall>j<k. \<not> data_ready cfg env (trace s @ [AdcEnableChannel ch, AdcStart] @ polls j)"
  shows "analogRead_convert cfg env ch s =
     (case mapResolution
             (adc_get_latest_value_answer env (trace s @ [AdcEnableChannel ch, AdcStart] @ polls (Suc k)))
             (ADC_RESOLUTION cfg) (readResolution s) of
        None \<Rightarrow> Some (Inl UndefinedShift)
      | Some v \<Rightarrow> Some (Inr (v, s\<lparr>trace := trace s @ conversion_calls ch k\<rparr>)))"
proof -
  let ?s2 = "adc_start (adc_enable_channel ch s)"
  have tr: "trace ?s2 = trace s @ [AdcEnableChannel ch, AdcStart]"
    by (simp add: adc_start_def adc_enable_channel_def emit_def)
  have "analogRead_wait cfg env ?s2 = Some (?s2\<lparr>trace := trace ?s2 @ polls (Suc k)\<rparr>)"
    using assms by (intro analogRead_wait_returns) (simp_all add: tr)
  then show ?thesis
    by (simp add: analogRead_convert_def Let_def tr adc_get_latest_value_def emit_def
        adc_disable_channel_def conversion_calls_def adc_start_def adc_enable_channel_def
        split: option.splits)
qed

lemma analogRead_convert_never:
  assumes "\<forall>k. \<not> data_ready cfg env (trace s @ [AdcEnableChannel ch, AdcStart] @ polls k)"
  shows "analogRead_convert cfg env ch s = None"
proof -
  let ?s2 = "adc_start (adc_enable_channel ch s)"
  have tr: "trace ?s2 = trace s @ [AdcEnableChannel ch, AdcStart]"
    by (simp add: adc_start_def adc_enable_channel_def emit_def)
  have "analogRead_wait cfg env ?s2 = None"
    using assms by (intro analogRead_wait_never) (simp add: tr)
  then show ?thesis
    by (simp add: analogRead_convert_def Let_def)
qed

lemma analogRead_never_ready:
  "A0 cfg \<le> myPin \<Longrightarrow> myPin \<le> CANTX cfg \<Longrightarrow>
   analogChannel (analogPin cfg myPin) \<in> converted_channels \<Longrightarrow>
   \<forall>k. \<not> data_ready cfg env
         (trace s @ [AdcEnableChannel (ADCChannelNumber (analogPin cfg myPin)), AdcStart] @ polls k) \<Longrightarrow>
   analogRead cfg env myPin s = None"
  by (simp add: analogRead_in_range analogRead_convert_never)

text \<open>
  C3: for a pin within the bounds whose line is one of the case labels, and a converter
  that answers data ready first at poll \<open>k\<close>, \<open>analogRead\<close> returns, and the calls it
  has made are one enable of the pin's channel, one start, \<open>k + 1\<close> polls, one read of
  the value and one disable of the same channel, in this order. The value returned is
  the value read, mapped by \<open>mapResolution\<close> from \<open>ADC_RESOLUTION\<close> to the read
  resolution.
\<close>

theorem analogRead_conversion_sequence:
  assumes "A0 cfg \<le> myPin" and "myPin \<le> CANTX cfg"
    and "analogChannel (analogPin cfg myPin) \<in> converted_channels"
    and "ch = ADCChannelNumber (analogPin cfg myPin)"
    and "data_ready cfg env (trace s @ [AdcEnableChannel ch, AdcStart] @ polls k)"
    and "\<forall>j<k. \<not> data_ready cfg env (trace s @ [AdcEnableChannel ch, AdcStart] @ polls j)"
    and "raw = adc_get_latest_value_answer env (trace s @ [AdcEnableChannel ch, AdcStart] @ polls (Suc k))"
  shows "analogRead cfg env myPin s =
     (case mapResolution raw (ADC_RESOLUTION cfg) (readResolution s) of
        None \<Rightarrow> Some (Inl UndefinedShift)
      | Some v \<Rightarrow> Some (Inr (v, s\<lparr>trace := trace s @ conversion_calls ch k\<rparr>)))"
  using assms(1-3,5,6) unfolding assms(4,7)
  by (simp add: analogRead_in_range analogRead_convert_returns)

theorem analogRead_conversion_sequence_witness:
  "A0 example_config \<le> 54 \<and> 54 \<le> CANTX example_config \<and>
   analogChannel (analogPin example_config 54) \<in> converted_channels \<and>
   data_ready example_config example_env
     (trace (initial_state example_config) @ [AdcEnableChannel 7, AdcStart] @ polls 2) \<and>
   \<not> data_ready example_config example_env
     (trace (initial_state example_config) @ [AdcEnableChannel 7, AdcStart] @ polls 0) \<and>
   \<not> data_ready example_config example_env
     (trace (initial_state example_config) @ [AdcEnableChannel 7, AdcStart] @ polls 1) \<and>
   analogRead example_config example_env 54 (initial_state example_config) =
     Some (Inr (1023, (initial_state example_config)
       \<lparr>trace := [AdcEnableChannel 7, AdcStart, AdcGetStatus, AdcGetStatus, AdcGetStatus,
                  AdcGetLatestValue, AdcDisableChannel 7]\<rparr>))"
proof -
  let ?s = "initial_state example_config"
  have h1: "A0 example_config \<le> 54" and h2: "54 \<le> CANTX example_config"
    by (simp_all add: example_config_def)
  have h3: "analogChannel (analogPin example_config 54) \<in> converted_channels"
    by (simp add: example_config_def converted_channels_def)
  have h4: "(7 :: u32) = ADCChannelNumber (analogPin example_config 54)"
    by (simp add: example_config_def)
  have h5: "data_ready example_config example_env
      (trace ?s @ [AdcEnableChannel 7, AdcStart] @ polls 2)"
    by (simp add: data_ready_def example_config_def example_env_def polls_def initial_state_def
        eval_nat_numeral)
  have h6: "\<forall>j<2. \<not> data_ready example_config example_env
      (trace ?s @ [AdcEnableChannel 7, AdcStart] @ polls j)"
    by (simp add: data_ready_def example_config_def example_env_def polls_def initial_state_def)
  have raw: "mapResolution
      (adc_get_latest_value_answer example_env
         (trace ?s @ [AdcEnableChannel 7, AdcStart] @ polls (Suc 2)))
      (ADC_RESOLUTION example_config) (readResolution ?s) = Some 1023"
    by (simp add: example_env_def example_config_def initial_state_def mapResolution_def
        shift_right_u32_def)
  have "analogRead example_config example_env 54 ?s =
      Some (Inr (1023, ?s\<lparr>trace := trace ?s @ conversion_calls 7 2\<rparr>))"
    using analogRead_conversion_sequence [OF h1 h2 h3 h4 h5 h6 refl] unfolding raw by simp
  then have "analogRead example_config example_env 54 ?s =
      Some (Inr (1023, ?s\<lparr>trace := [AdcEnableChannel 7, AdcStart, AdcGetStatus, AdcGetStatus,
        AdcGetStatus, AdcGetLatestValue, AdcDisableChannel 7]\<rparr>))"
    by (simp add: conversion_calls_def polls_def initial_state_def eval_nat_numeral)
  moreover have "\<not> data_ready example_config example_env
      (trace ?s @ [AdcEnableChannel 7, AdcStart] @ polls 0)"
    and "\<not> data_ready example_config example_env
      (trace ?s @ [AdcEnableChannel 7, AdcStart] @ polls 1)"
    using h6 by simp_all
  ultimately show ?thesis
    using h1 h2 h3 h5 by simp
qed

text \<open>
  C4: for a pin below \<open>A0\<close> or above \<open>CANTX\<close>, \<open>analogRead\<close> returns
  \<open>NOT_ANALOG_PIN_ERROR\<close>; its only call is the one to the diagnostic sink, so the
  ADC calls recorded are those recorded before.
\<close>

theorem analogRead_out_of_range:
  "myPin < A0 cfg \<or> CANTX cfg < myPin \<Longrightarrow>
   \<exists>s'. analogRead cfg env myPin s = Some (Inr (NOT_ANALOG_PIN_ERROR cfg, s')) \<and>
        s' = s\<lparr>trace := trace s @ [Debug ''%d is not an Analog Pin'' [myPin]]\<rparr> \<and>
        filter is_adc_call (trace s') = filter is_adc_call (trace s)"
  by (simp add: analogRead_def debug_def emit_def)

theorem analogRead_out_of_range_witness:
  "((3 :: u32) < A0 example_config \<or> CANTX example_config < 3) \<and>
   analogRead example_config example_env 3 (initial_state example_config) =
     Some (Inr (- 1, (initial_state example_config)
       \<lparr>trace := [Debug ''%d is not an Analog Pin'' [3]]\<rparr>))"
proof -
  have h: "(3 :: u32) < A0 example_config \<or> CANTX example_config < 3"
    by (simp add: example_config_def)
  from analogRead_out_of_range [OF h, of example_env "initial_state example_config"] h
  show ?thesis
    by (simp add: example_config_def initial_state_def)
qed

text \<open>The two bounds themselves are accepted: at \<open>A0\<close> and at \<open>CANTX\<close> the switch decides.\<close>

lemma analogRead_at_bounds:
  "A0 cfg \<le> CANTX cfg \<Longrightarrow> myPin = A0 cfg \<or> myPin = CANTX cfg \<Longrightarrow>
   analogRead cfg env myPin s =
     (if analogChannel (analogPin cfg myPin) \<in> converted_channels
      then analogRead_convert cfg env (ADCChannelNumber (analogPin cfg myPin)) s
      else Some (Inr (0, s)))"
  by (auto simp: analogRead_in_range)

text \<open>
  C5: for a pin within the bounds whose line is none of the case labels, \<open>analogRead\<close>
  returns 0 and leaves the state as it was: it makes no call at all.
\<close>

theorem analogRead_unconverted_channel:
  "A0 cfg \<le> myPin \<Longrightarrow> myPin \<le> CANTX cfg \<Longrightarrow>
   analogChannel (analogPin cfg myPin) \<notin> converted_channels \<Longrightarrow>
   analogRead cfg env myPin s = Some (Inr (0, s))"
  by (simp add: analogRead_in_range)

theorem analogRead_unconverted_channel_witness:
  "A0 example_config \<le> 55 \<and> 55 \<le> CANTX example_config \<and>
   analogChannel (analogPin example_config 55) \<notin> converted_channels \<and>
   analogRead example_config example_env 55 (initial_state example_config) =
     Some (Inr (0, initial_state example_config))"
proof -
  have h1: "A0 example_config \<le> 55" and h2: "55 \<le> CANTX example_config"
    by (simp_all add: example_config_def)
  have h3: "analogChannel (analogPin example_config 55) \<notin> converted_channels"
    by (simp add: example_config_def converted_channels_def)
  from analogRead_unconverted_channel [OF h1 h2 h3] h1 h2 h3 show ?thesis
    by simp
qed

text \<open>
  The global \<open>analog_reference\<close> is written by \<open>analogReference\<close> and read by nothing
  in the file: a conversion started with another reference differs in that variable only.
\<close>

lemma analogRead_convert_analog_reference:
  "analogRead_convert cfg env ch (s\<lparr>analog_reference := r\<rparr>) =
     map_option (map_sum id (\<lambda>(v, s'). (v, s'\<lparr>analog_reference := r\<rparr>)))
       (analogRead_convert cfg env ch s)"
proof (cases rule: analogRead_wait_cases [of cfg env "adc_start (adc_enable_channel ch s)"])
  case (returns k)
  then have a: "data_ready cfg env (trace s @ [AdcEnableChannel ch, AdcStart] @ polls k)"
    and b: "\<forall>j<k. \<not> data_ready cfg env (trace s @ [AdcEnableChannel ch, AdcStart] @ polls j)"
    by (simp_all add: adc_start_def adc_enable_channel_def emit_def)
  show ?thesis
    using analogRead_convert_returns [OF a b]
      analogRead_convert_returns [of cfg env "s\<lparr>analog_reference := r\<rparr>" ch k] a b
    by (simp split: option.splits)
next
  case never
  then have a: "\<forall>k. \<not> data_ready cfg env (trace s @ [AdcEnableChannel ch, AdcStart] @ polls k)"
    by (simp add: adc_start_def adc_enable_channel_def emit_def)
  show ?thesis
    using analogRead_convert_never [OF a]
      analogRead_convert_never [of cfg env "s\<lparr>analog_reference := r\<rparr>" ch] a
    by simp
qed

text \<open>
  C8, as the code has it: \<open>analogReference\<close> stores the reference, and \<open>analogRead\<close>
  neither reads nor writes it. With the answers of the hardware fixed, a call of
  \<open>analogRead\<close> under the reference \<open>r\<close> returns what it returns under any other
  reference, makes the same calls, and leaves \<open>r\<close> in the variable.
\<close>

theorem analogRead_ignores_analog_reference:
  "analogRead cfg env myPin (analogReference r s) =
     map_option (map_sum id (\<lambda>(v, s'). (v, analogReference r s'))) (analogRead cfg env myPin s)"
proof (cases "myPin < A0 cfg \<or> CANTX cfg < myPin")
  case True
  then show ?thesis
    by (auto simp: analogRead_def analogReference_def debug_def emit_def)
next
  case False
  then have "A0 cfg \<le> myPin" "myPin \<le> CANTX cfg" by (simp_all add: not_less)
  then show ?thesis
    by (simp add: analogRead_in_range analogReference_def analogRead_convert_analog_reference)
qed

text \<open>
  C8 as stated fails: on pin 54 of the example board the conversion under reference 0
  and the conversion under reference 1 return the same value after the same calls.
\<close>

theorem analogRead_reads_reference_counterexample:
  "observable (analogRead example_config example_env 54
      (analogReference 0 (initial_state example_config))) =
     Some (Inr (1023, [AdcEnableChannel 7, AdcStart, AdcGetStatus, AdcGetStatus, AdcGetStatus,
                       AdcGetLatestValue, AdcDisableChannel 7])) \<and>
   observable (analogRead example_config example_env 54
      (analogReference 1 (initial_state example_config))) =
     Some (Inr (1023, [AdcEnableChannel 7, AdcStart, AdcGetStatus, AdcGetStatus, AdcGetStatus,
                       AdcGetLatestValue, AdcDisableChannel 7]))"
proof -
  have run: "observable (analogRead example_config example_env 54
      (analogReference r (initial_state example_config))) =
     Some (Inr (1023, [AdcEnableChannel 7, AdcStart, AdcGetStatus, AdcGetStatus, AdcGetStatus,
                       AdcGetLatestValue, AdcDisableChannel 7]))" for r
  proof -
    let ?s = "analogReference r (initial_state example_config)"
    have h1: "A0 example_config \<le> 54" and h2: "54 \<le> CANTX example_config"
      by (simp_all add: example_config_def)
    have h3: "analogChannel (analogPin example_config 54) \<in> converted_channels"
      by (simp add: example_config_def converted_channels_def)
    have h4: "ADCChannelNumber (analogPin example_config 54) = 7"
      by (simp add: example_config_def)
    have h5: "data_ready example_config example_env
        (trace ?s @ [AdcEnableChannel 7, AdcStart] @ polls 2)"
      by (simp add: data_ready_def example_config_def example_env_def polls_def
          initial_state_def analogReference_def eval_nat_numeral)
    have h6: "\<forall>j<2. \<not> data_ready example_config example_env
        (trace ?s @ [AdcEnableChannel 7, AdcStart] @ polls j)"
      by (simp add: data_ready_def example_config_def example_env_def polls_def
          initial_state_def analogReference_def)
    have raw: "mapResolution
        (adc_get_latest_value_answer example_env
           (trace ?s @ [AdcEnableChannel 7, AdcStart] @ polls (Suc 2)))
        (ADC_RESOLUTION example_config) (readResolution ?s) = Some 1023"
      by (simp add: example_env_def example_config_def initial_state_def mapResolution_def
          shift_right_u32_def analogReference_def)
    have "analogRead example_config example_env 54 ?s =
        Some (Inr (1023, ?s\<lparr>trace := trace ?s @ conversion_calls 7 2\<rparr>))"
      using analogRead_convert_returns [OF h5 h6] unfolding raw
      by (simp add: analogRead_in_range [OF h1 h2] h3 h4)
    then show ?thesis
      by (simp add: observable_def conversion_calls_def polls_def initial_state_def
          analogReference_def eval_nat_numeral)
  qed
  show ?thesis
    by (simp add: run)
qed

subsection \<open>Bit-Banged Shift Protocol\<close>

text \<open>The loop counter: below 8 it counts up by one without wrapping.\<close>

lemma u8_less_8: "(i::u8) < 8 \<Longrightarrow> unat i < 8"
  by (simp add: word_less_nat_alt)

lemma u8_Suc: "(i::u8) < 8 \<Longrightarrow> unat (i + 1) = Suc (unat i)"
  by (simp add: unat_word_ariths word_less_nat_alt)

lemma u8_Suc_le: "(i::u8) < 8 \<Longrightarrow> i + 1 \<le> 8"
  by (simp add: word_le_nat_alt u8_Suc) (simp add: word_less_nat_alt)

lemma msb_position: "(i::u8) < 8 \<Longrightarrow> unat (7 - ucast i :: cint) = 7 - unat i"
proof -
  assume i: "i < 8"
  have "unat i < 2 ^ 32"
    using unsigned_less [of i, where 'a = nat] by simp
  then have u: "unat (ucast i :: cint) = unat i"
    by (simp add: unsigned_ucast_eq take_bit_nat_eq_self)
  with i have "(ucast i :: cint) \<le> 7"
    by (simp add: word_le_nat_alt word_less_nat_alt)
  then show ?thesis
    by (simp add: unat_sub u)
qed

lemma level_bit:
  "n < 8 \<Longrightarrow> ((ucast (val :: u8) :: cint) AND 2 ^ n = 0) = (\<not> bit val n)"
  by (simp add: and_exp_eq_0_iff_not_bit bit_ucast_iff)

lemma upt_8: "[0..<8] = [0, 1, 2, 3, 4, 5, 6, 7]"
  by (simp add: upt_rec)

lemma concat_replicate_Suc_end:
  "concat (replicate (Suc n) xs) = concat (replicate n xs) @ xs"
  by (induction n) simp_all

text \<open>
  \<open>shiftOut\<close> makes the calls of its eight steps, in order, and changes nothing else.
  The order of the bits depends on \<open>bitOrder\<close> only through its comparison with
  \<open>LSBFIRST\<close>.
\<close>

lemma shiftOut_loop_closed:
  "i \<le> 8 \<Longrightarrow>
   shiftOut_loop cfg dataPin clockPin bitOrder val i s =
     s\<lparr>trace := trace s @
        concat (map (shiftOut_step cfg dataPin clockPin (ucast bitOrder = LSBFIRST cfg) val)
                  [unat i..<8])\<rparr>"
proof (induction cfg dataPin clockPin bitOrder val i s rule: shiftOut_loop.induct)
  case (1 cfg dataPin clockPin bitOrder val i s)
  show ?case
  proof (cases "i < 8")
    case True
    note IH = "1.IH" [OF True refl refl refl u8_Suc_le [OF True]]
    have upt: "[unat i..<8] = unat i # [Suc (unat i)..<8]"
      using u8_less_8 [OF True] by (simp add: upt_conv_Cons)
    show ?thesis
      apply (subst shiftOut_loop.simps)
      using True u8_less_8 [OF True]
      apply (simp only: if_True Let_def IH)
      apply (simp add: upt u8_Suc msb_position level_bit shiftOut_step_def bit_position_def
          digitalWrite_def gpioSetValue_def emit_def)
      done
  next
    case False
    with "1.prems" have "i = 8" by simp
    then show ?thesis
      by (subst shiftOut_loop.simps) simp
  qed
qed

lemma shiftOut_closed:
  "shiftOut cfg dataPin clockPin bitOrder val s =
     s\<lparr>trace := trace s @ shiftOut_calls cfg dataPin clockPin (ucast bitOrder = LSBFIRST cfg) val\<rparr>"
  by (simp add: shiftOut_def shiftOut_loop_closed shiftOut_calls_def)

text \<open>
  \<open>shiftIn\<close> makes eight times the calls clock high, read, clock low, and returns the
  byte put together from the eight levels read.
\<close>

lemma shiftIn_loop_closed:
  "i \<le> 8 \<Longrightarrow>
   trace s = tr @ concat (replicate (unat i) (shiftIn_pulse cfg dataPin clockPin)) \<Longrightarrow>
   shiftIn_loop cfg env dataPin clockPin bitOrder i v s =
     (assemble (ucast bitOrder = LSBFIRST cfg) (sample cfg env dataPin clockPin tr) (unat i) v,
      s\<lparr>trace := tr @ shiftIn_calls cfg dataPin clockPin\<rparr>)"
proof (induction cfg env dataPin clockPin bitOrder i v s rule: shiftIn_loop.induct)
  case (1 cfg env dataPin clockPin bitOrder i v s)
  show ?case
  proof (cases "i < 8")
    case True
    let ?s1 = "digitalWrite (ucast clockPin) (HIGH cfg) s"
    let ?r = "fst (digitalRead env (ucast dataPin) ?s1)"
    let ?s2 = "snd (digitalRead env (ucast dataPin) ?s1)"
    let ?v' = "if ucast bitOrder = LSBFIRST cfg
               then ucast ((ucast v :: cint) OR push_bit (unat i) ?r) :: u8
               else ucast ((ucast v :: cint) OR push_bit (unat (7 - ucast i :: cint)) ?r)"
    let ?s3 = "digitalWrite (ucast clockPin) (LOW cfg) ?s2"
    have r: "?r = sample cfg env dataPin clockPin tr (unat i)"
      by (simp add: digitalRead_def digitalWrite_def gpioGetValue_def gpioSetValue_def emit_def
          sample_def "1.prems"(2))
    have tr3: "trace ?s3 = tr @ concat (replicate (unat (i + 1)) (shiftIn_pulse cfg dataPin clockPin))"
      by (simp add: digitalRead_def digitalWrite_def gpioGetValue_def gpioSetValue_def emit_def
          "1.prems"(2) u8_Suc [OF True] concat_replicate_Suc_end shiftIn_pulse_def
          del: replicate_Suc concat.simps)
    have IH: "shiftIn_loop cfg env dataPin clockPin bitOrder (i + 1) ?v' ?s3 =
       (assemble (ucast bitOrder = LSBFIRST cfg) (sample cfg env dataPin clockPin tr) (unat (i + 1)) ?v',
        ?s3\<lparr>trace := tr @ shiftIn_calls cfg dataPin clockPin\<rparr>)"
      by (rule "1.IH" [OF True refl _ refl refl refl u8_Suc_le [OF True] tr3]) (simp add: prod_eq_iff)
    have upt: "[unat i..<8] = unat i # [Suc (unat i)..<8]"
      using u8_less_8 [OF True] by (simp add: upt_conv_Cons)
    have step: "shiftIn_loop cfg env dataPin clockPin bitOrder i v s =
        shiftIn_loop cfg env dataPin clockPin bitOrder (i + 1) ?v' ?s3"
      using True by (subst shiftIn_loop.simps) (simp add: Let_def split_beta)
    have v': "assemble (ucast bitOrder = LSBFIRST cfg) (sample cfg env dataPin clockPin tr) (unat (i + 1)) ?v' =
        assemble (ucast bitOrder = LSBFIRST cfg) (sample cfg env dataPin clockPin tr) (unat i) v"
      by (simp add: assemble_def upt u8_Suc [OF True] msb_position [OF True] bit_position_def r)
    have s3: "?s3\<lparr>trace := tr @ shiftIn_calls cfg dataPin clockPin\<rparr> =
        s\<lparr>trace := tr @ shiftIn_calls cfg dataPin clockPin\<rparr>"
      by (simp add: digitalRead_def digitalWrite_def gpioGetValue_def gpioSetValue_def emit_def)
    show ?thesis
      by (simp only: step IH v' s3)
  next
    case False
    with "1.prems" have i: "i = 8" by simp
    have "shiftIn_loop cfg env dataPin clockPin bitOrder i v s = (v, s)"
      using False by (subst shiftIn_loop.simps) simp
    moreover have "s\<lparr>trace := tr @ shiftIn_calls cfg dataPin clockPin\<rparr> = s"
      using "1.prems"(2) by (simp add: i shiftIn_calls_def)
    ultimately show ?thesis
      by (simp add: assemble_def i)
  qed
qed

lemma shiftIn_closed:
  "shiftIn cfg env dataPin clockPin bitOrder s =
     (assemble (ucast bitOrder = LSBFIRST cfg) (sample cfg env dataPin clockPin (trace s)) 0 0,
      s\<lparr>trace := trace s @ shiftIn_calls cfg dataPin clockPin\<rparr>)"
  using shiftIn_loop_closed [of 0 s "trace s" cfg dataPin clockPin env bitOrder 0]
  by (simp add: shiftIn_def)

text \<open>Neither makes a call to the diagnostic sink.\<close>

lemma no_debug_shiftIn_calls: "filter is_debug (shiftIn_calls cfg dataPin clockPin) = []"
proof -
  have "filter is_debug (concat (replicate k (shiftIn_pulse cfg dataPin clockPin))) = []" for k
    by (induction k) (simp_all add: shiftIn_pulse_def)
  then show ?thesis
    by (simp only: shiftIn_calls_def)
qed

lemma no_debug_shiftOut_calls:
  "filter is_debug (shiftOut_calls cfg dataPin clockPin lsb_first val) = []"
proof -
  have "filter is_debug (concat (map (shiftOut_step cfg dataPin clockPin lsb_first val) xs)) = []"
    for xs
    by (induction xs) (simp_all add: shiftOut_step_def)
  then show ?thesis
    by (simp only: shiftOut_calls_def)
qed

text \<open>What the looped-back line has kept and answered after \<open>shiftOut\<close> and \<open>k\<close> steps of \<open>shiftIn\<close>.\<close>

lemma data_written_append:
  "data_written p (xs @ ys) = data_written p xs @ data_written p ys"
  by (simp add: data_written_def)

lemma samples_taken_append:
  "samples_taken p (xs @ ys) = samples_taken p xs + samples_taken p ys"
  by (simp add: samples_taken_def)

lemma ucast_pin_eq: "(ucast (p :: u8) :: cint) = ucast (q :: u8) \<longleftrightarrow> p = q"
  by (simp add: word_eq_iff_unsigned [where ?'a = nat] unsigned_ucast_eq take_bit_nat_eq_self
      unsigned_less [where ?'a = nat, THEN less_trans])

lemma data_written_shiftOut_calls:
  "dataPin \<noteq> clockPin \<Longrightarrow>
   data_written (ucast dataPin) (shiftOut_calls cfg dataPin clockPin lsb_first val) =
     map (\<lambda>i. of_bool (bit val (bit_position lsb_first i))) [0..<8]"
  by (simp add: shiftOut_calls_def shiftOut_step_def upt_8 data_written_def ucast_pin_eq)

lemma samples_taken_shiftOut_calls:
  "samples_taken p (shiftOut_calls cfg dataPin clockPin lsb_first val) = 0"
  by (simp add: shiftOut_calls_def shiftOut_step_def upt_8 samples_taken_def)

lemma data_written_pulses:
  "dataPin \<noteq> clockPin \<Longrightarrow>
   data_written (ucast dataPin) (concat (replicate k (shiftIn_pulse cfg dataPin clockPin))) = []"
  by (induction k) (simp_all add: shiftIn_pulse_def data_written_def ucast_pin_eq)

lemma samples_taken_pulses:
  "samples_taken (ucast dataPin) (concat (replicate k (shiftIn_pulse cfg dataPin clockPin))) = k"
  by (induction k) (simp_all add: shiftIn_pulse_def samples_taken_def)

lemma sample_loopback:
  assumes "dataPin \<noteq> clockPin"
    and "samples_taken (ucast dataPin) tr = length (data_written (ucast dataPin) tr)"
    and "k < 8"
  shows "sample cfg (loopback (ucast dataPin) env) dataPin clockPin
           (tr @ shiftOut_calls cfg dataPin clockPin lsb_first val) k =
         of_bool (bit val (bit_position lsb_first k))"
proof -
  let ?T = "tr @ shiftOut_calls cfg dataPin clockPin lsb_first val @
       concat (replicate k (shiftIn_pulse cfg dataPin clockPin)) @
       [GpioSetValue (ucast clockPin) (HIGH cfg)]"
  let ?bits = "map (\<lambda>i. of_bool (bit val (bit_position lsb_first i)) :: cint) [0..<8]"
  have "data_written (ucast dataPin) [GpioSetValue (ucast clockPin) (HIGH cfg)] = []"
    using assms(1) by (simp add: data_written_def ucast_pin_eq)
  then have w: "data_written (ucast dataPin) ?T = data_written (ucast dataPin) tr @ ?bits"
    by (simp only: data_written_append data_written_shiftOut_calls [OF assms(1)]
        data_written_pulses [OF assms(1)] append_Nil2)
  have "samples_taken (ucast dataPin) [GpioSetValue (ucast clockPin) (HIGH cfg)] = 0"
    by (simp add: samples_taken_def)
  then have n: "samples_taken (ucast dataPin) ?T = length (data_written (ucast dataPin) tr) + k"
    by (simp only: samples_taken_append samples_taken_shiftOut_calls samples_taken_pulses assms(2)
        add_0 add_0_right)
  have len: "length ?bits = 8"
    by simp
  have "sample cfg (loopback (ucast dataPin) env) dataPin clockPin
           (tr @ shiftOut_calls cfg dataPin clockPin lsb_first val) k =
        (data_written (ucast dataPin) ?T) ! (samples_taken (ucast dataPin) ?T)"
    using assms(3) by (simp add: sample_def loopback_def Let_def w n del: upt_Suc)
  also have "\<dots> = ?bits ! k"
    by (simp only: w n nth_append_length_plus)
  also have "\<dots> = of_bool (bit val (bit_position lsb_first k))"
    using assms(3) by (simp del: upt_Suc)
  finally show ?thesis .
qed

text \<open>Putting the eight bits of a byte together, each at its position, gives the byte.\<close>

lemma assemble_cong:
  "(\<And>k. k < 8 \<Longrightarrow> r k = r' k) \<Longrightarrow> assemble lsb_first r 0 v = assemble lsb_first r' 0 v"
  unfolding assemble_def by (rule fold_cong) simp_all

lemma or_bit_u8:
  "p < 8 \<Longrightarrow> (ucast ((ucast (v :: u8) :: cint) OR push_bit p (of_bool b)) :: u8) =
     v OR push_bit p (of_bool b)"
  by (rule bit_eqI) (auto simp: bit_simps)

lemma seven_minus_less: "7 - i < (8::nat)"
  by arith

lemma bit_position_less: "i < 8 \<Longrightarrow> bit_position lsb_first i < 8"
  by (simp add: bit_position_def seven_minus_less)

lemma bit_push_bit_of_bit:
  "bit (push_bit p (of_bool (bit val p)) :: u8) n \<longleftrightarrow> n = p \<and> bit (val :: u8) n"
  using bit_imp_possible_bit [of val p] by (auto simp: bit_simps)

lemma bit_fold_or:
  "bit (fold (\<lambda>i v. v OR push_bit (g i) (of_bool (bit (val :: u8) (g i)))) xs (v0 :: u8)) n \<longleftrightarrow>
     bit v0 n \<or> (n \<in> g ` set xs \<and> bit val n)"
proof (induction xs arbitrary: v0)
  case Nil
  show ?case by simp
next
  case (Cons a xs)
  let ?f = "\<lambda>i v. v OR push_bit (g i) (of_bool (bit val (g i)))"
  have "bit (fold ?f (a # xs) v0) n \<longleftrightarrow> bit (fold ?f xs (?f a v0)) n"
    by (simp only: fold_simps)
  also have "\<dots> \<longleftrightarrow> bit (?f a v0) n \<or> (n \<in> g ` set xs \<and> bit val n)"
    by (rule Cons.IH)
  also have "\<dots> \<longleftrightarrow> (bit v0 n \<or> (n = g a \<and> bit val n)) \<or> (n \<in> g ` set xs \<and> bit val n)"
    by (simp only: bit_or_iff bit_push_bit_of_bit)
  also have "\<dots> \<longleftrightarrow> bit v0 n \<or> (n \<in> g ` set (a # xs) \<and> bit val n)"
    by auto
  finally show ?case .
qed

lemma assemble_bits:
  "assemble lsb_first (\<lambda>k. of_bool (bit val (bit_position lsb_first k))) 0 0 = val"
proof -
  let ?f = "\<lambda>i (v :: u8). v OR push_bit (bit_position lsb_first i)
                        (of_bool (bit val (bit_position lsb_first i)))"
  have "assemble lsb_first (\<lambda>k. of_bool (bit val (bit_position lsb_first k))) 0 0 =
      fold ?f [0..<8] 0"
    unfolding assemble_def
    by (rule fold_cong) (simp_all add: or_bit_u8 bit_position_less)
  also have "\<dots> = val"
  proof (rule bit_eqI)
    fix n
    have "bit val n \<Longrightarrow> n \<in> bit_position lsb_first ` set [0..<8]"
    proof -
      assume "bit val n"
      then have n: "n < 8"
        using bit_imp_possible_bit [of val n] by simp
      then have "n = bit_position lsb_first (if lsb_first then n else 7 - n)"
        by (simp add: bit_position_def)
      moreover have "(if lsb_first then n else 7 - n) \<in> set [0..<8]"
        using n by (simp add: seven_minus_less)
      ultimately show ?thesis
        by (rule image_eqI)
    qed
    then show "bit (fold ?f [0..<8] 0) n = bit val n"
      using bit_fold_or [of "bit_position lsb_first" val "[0..<8]" 0 n] by auto
  qed
  finally show ?thesis .
qed

text \<open>
  C2: on a looped-back data line on which no level written earlier is still unread,
  with the data pin and the clock pin distinct, \<open>shiftOut\<close> of a byte followed by
  \<open>shiftIn\<close> with the same \<open>bitOrder\<close> returns the byte, for every byte and every
  value of \<open>bitOrder\<close>.
\<close>

theorem shiftOut_shiftIn_loopback:
  assumes "dataPin \<noteq> clockPin"
    and "samples_taken (ucast dataPin) (trace s) = length (data_written (ucast dataPin) (trace s))"
  shows "fst (shiftIn cfg (loopback (ucast dataPin) env) dataPin clockPin bitOrder
                (shiftOut cfg dataPin clockPin bitOrder val s)) = val"
proof -
  let ?lsb = "ucast bitOrder = LSBFIRST cfg"
  have "fst (shiftIn cfg (loopback (ucast dataPin) env) dataPin clockPin bitOrder
                (shiftOut cfg dataPin clockPin bitOrder val s)) =
        assemble ?lsb (sample cfg (loopback (ucast dataPin) env) dataPin clockPin
          (trace s @ shiftOut_calls cfg dataPin clockPin ?lsb val)) 0 0"
    by (simp add: shiftIn_closed shiftOut_closed)
  also have "\<dots> = assemble ?lsb (\<lambda>k. of_bool (bit val (bit_position ?lsb k))) 0 0"
    by (rule assemble_cong) (rule sample_loopback [OF assms])
  also have "\<dots> = val"
    by (rule assemble_bits)
  finally show ?thesis .
qed

theorem shiftOut_shiftIn_loopback_witness:
  "(11 :: u8) \<noteq> 13 \<and>
   samples_taken (ucast (11 :: u8)) (trace (initial_state example_config)) =
     length (data_written (ucast (11 :: u8)) (trace (initial_state example_config))) \<and>
   fst (shiftIn example_config (loopback (ucast (11 :: u8)) example_env) 11 13 0
          (shiftOut example_config 11 13 0 165 (initial_state example_config))) = 165 \<and>
   fst (shiftIn example_config (loopback (ucast (11 :: u8)) example_env) 11 13 1
          (shiftOut example_config 11 13 1 165 (initial_state example_config))) = 165"
proof -
  have h1: "(11 :: u8) \<noteq> 13"
    by simp
  have h2: "samples_taken (ucast (11 :: u8)) (trace (initial_state example_config)) =
     length (data_written (ucast (11 :: u8)) (trace (initial_state example_config)))"
    by (simp add: initial_state_def samples_taken_def data_written_def)
  from shiftOut_shiftIn_loopback [OF h1 h2, of example_config example_env 0 165]
    shiftOut_shiftIn_loopback [OF h1 h2, of example_config example_env 1 165] h1 h2
  show ?thesis
    by simp
qed

text \<open>
  C9: a \<open>bitOrder\<close> other than \<open>LSBFIRST\<close>, whether or not it is \<open>MSBFIRST\<close>,
  makes \<open>shiftIn\<close> and \<open>shiftOut\<close> do exactly what they do for \<open>MSBFIRST\<close>
  (the two macros being distinct as values of a \<open>uint8_t\<close>), and neither reports
  anything to the diagnostic sink.
\<close>

theorem bitOrder_not_lsb_is_msb:
  assumes "ucast bitOrder \<noteq> LSBFIRST cfg"
    and "ucast (ucast (MSBFIRST cfg) :: u8) \<noteq> LSBFIRST cfg"
  shows "shiftIn cfg env dataPin clockPin bitOrder s =
           shiftIn cfg env dataPin clockPin (ucast (MSBFIRST cfg)) s \<and>
         shiftOut cfg dataPin clockPin bitOrder val s =
           shiftOut cfg dataPin clockPin (ucast (MSBFIRST cfg)) val s \<and>
         filter is_debug (trace (snd (shiftIn cfg env dataPin clockPin bitOrder s))) =
           filter is_debug (trace s) \<and>
         filter is_debug (trace (shiftOut cfg dataPin clockPin bitOrder val s)) =
           filter is_debug (trace s)"
  using assms
  by (simp add: shiftIn_closed shiftOut_closed no_debug_shiftIn_calls no_debug_shiftOut_calls)

theorem bitOrder_not_lsb_is_msb_witness:
  "ucast (7 :: u8) \<noteq> LSBFIRST example_config \<and>
   ucast (ucast (MSBFIRST example_config) :: u8) \<noteq> LSBFIRST example_config \<and>
   shiftIn example_config example_env 11 13 7 (initial_state example_config) =
     shiftIn example_config example_env 11 13 (ucast (MSBFIRST example_config))
       (initial_state example_config) \<and>
   shiftOut example_config 11 13 7 165 (initial_state example_config) =
     shiftOut example_config 11 13 (ucast (MSBFIRST example_config)) 165
       (initial_state example_config)"
proof -
  have h1: "ucast (7 :: u8) \<noteq> LSBFIRST example_config"
    by (simp add: example_config_def)
  have h2: "ucast (ucast (MSBFIRST example_config) :: u8) \<noteq> LSBFIRST example_config"
    by (simp add: example_config_def)
  from bitOrder_not_lsb_is_msb [OF h1 h2, of example_env 11 13 "initial_state example_config" 165]
    h1 h2
  show ?thesis
    by simp
qed

subsection \<open>Timing Utility\<close>

text \<open>
  C10: \<open>delay\<close> asks \<open>usleep\<close> for \<open>ms * 1000\<close> computed in 32 bits. Above
  4294967 ms the product wraps: the duration asked for is \<open>ms * 1000\<close> modulo
  \<open>2 ^ 32\<close> microseconds, which is less than \<open>ms\<close> milliseconds.
\<close>

theorem delay_wraps:
  "4294967 < unat ms \<Longrightarrow>
   \<exists>usec. delay ms s = s\<lparr>trace := trace s @ [Usleep usec]\<rparr> \<and>
          unat usec = (unat ms * 1000) mod 2 ^ 32 \<and> unat usec < unat ms * 1000"
proof -
  assume big: "4294967 < unat ms"
  have wrapped: "unat (ms * 1000) = (unat ms * 1000) mod 2 ^ 32"
    by (simp add: unat_word_ariths)
  have "(unat ms * 1000) mod 2 ^ 32 < (2 :: nat) ^ 32"
    by simp
  with big have "(unat ms * 1000) mod 2 ^ 32 < unat ms * 1000"
    by simp
  with wrapped have "delay ms s = s\<lparr>trace := trace s @ [Usleep (ms * 1000)]\<rparr> \<and>
      unat (ms * 1000) = (unat ms * 1000) mod 2 ^ 32 \<and> unat (ms * 1000) < unat ms * 1000"
    by (simp add: delay_def usleep_def emit_def)
  then show ?thesis
    by blast
qed

theorem delay_wraps_witness:
  "(4294967 :: nat) < unat (4294968 :: u32) \<and>
   (\<exists>usec. delay 4294968 (initial_state example_config) =
            (initial_state example_config)\<lparr>trace := [Usleep usec]\<rparr> \<and>
          unat usec = 704 \<and> unat usec < 4294968000)"
  using delay_wraps [of 4294968 "initial_state example_config"]
  by (simp add: initial_state_def)

text \<open>Up to 4294967 ms the product is exact.\<close>

lemma delay_exact:
  "unat ms \<le> 4294967 \<Longrightarrow>
   delay ms s = s\<lparr>trace := trace s @ [Usleep (ms * 1000)]\<rparr> \<and>
   unat (ms * 1000) = unat ms * 1000"
  by (simp add: delay_def usleep_def emit_def unat_word_ariths)

text \<open>\<open>long\<close> has 32 bits or more, so the divisor 1000 is 1000 as an \<open>unsigned long\<close>.\<close>

lemma unat_1000: "32 \<le> LENGTH('l::len) \<Longrightarrow> unat (1000 :: 'l word) = 1000"
proof -
  assume "32 \<le> LENGTH('l)"
  then have "(2::nat) ^ 32 \<le> 2 ^ LENGTH('l)"
    by (intro power_increasing) simp_all
  then have "(1000::nat) < 2 ^ LENGTH('l)"
    by simp
  then show ?thesis
    by (simp add: unsigned_numeral take_bit_nat_eq_self)
qed

text \<open>
  C7: \<open>milis\<close> makes the one clock read that \<open>micros\<close> makes and returns the result
  of \<open>micros\<close> divided by 1000, the division being that of natural numbers, which
  truncates. After a successful clock read this is the number of microseconds computed
  from the time read, divided by 1000.
\<close>

theorem milis_is_micros_div_1000:
  fixes clk :: "('l::len) word clock"
  assumes long: "32 \<le> LENGTH('l)"
  shows "milis clk s = (fst (micros clk s) div 1000, snd (micros clk s)) \<and>
   unat (fst (milis clk s)) = unat (fst (micros clk s)) div 1000 \<and>
   (fst (clock_gettime_answer clk (trace s)) \<noteq> - 1 \<longrightarrow>
      fst (milis clk s) =
        (tv_sec (snd (clock_gettime_answer clk (trace s))) * 1000000 +
         word_of_int (sint (tv_nsec (snd (clock_gettime_answer clk (trace s)))) sdiv 1000)) div 1000)"
proof -
  have m: "milis clk s = (fst (micros clk s) div 1000, snd (micros clk s))"
    by (simp add: milis_def split: prod.splits)
  have "unat (fst (milis clk s)) = unat (fst (micros clk s)) div unat (1000 :: 'l word)"
    by (simp only: m fst_conv unat_div)
  then have u: "unat (fst (milis clk s)) = unat (fst (micros clk s)) div 1000"
    by (simp only: unat_1000 [OF long])
  have "fst (clock_gettime_answer clk (trace s)) \<noteq> - 1 \<longrightarrow>
      fst (micros clk s) =
        tv_sec (snd (clock_gettime_answer clk (trace s))) * 1000000 +
         word_of_int (sint (tv_nsec (snd (clock_gettime_answer clk (trace s)))) sdiv 1000)"
    by (simp add: micros_def clock_gettime_def split: prod.splits)
  with m u show ?thesis
    by simp
qed

theorem milis_is_micros_div_1000_witness:
  "32 \<le> LENGTH(64) \<and>
   fst (clock_gettime_answer example_clock (trace (initial_state example_config))) \<noteq> - 1 \<and>
   fst (micros example_clock (initial_state example_config)) = 5123456 \<and>
   fst (milis example_clock (initial_state example_config)) = 5123"
  using milis_is_micros_div_1000 [of example_clock "initial_state example_config"]
  by (simp add: example_clock_def initial_state_def micros_def clock_gettime_def emit_def
      signed_divide_int_def)

end
